theory Spec2Isabelle
  imports Main "HOL-Library.Word" "HOL-Library.Sublist"
begin

unbundle bit_operations_syntax

section \<open>Data model\<close>

text \<open>
  A Go \<^verbatim>\<open>byte\<close> is an 8-bit word. Go's \<^verbatim>\<open>int\<close> is modelled at its 64-bit width:
  arithmetic wraps around, comparisons and decimal printing read the word as two's
  complement (\<open>sint\<close>). Lengths of slices are natural numbers.
\<close>

type_synonym byte = "8 word"
type_synonym goint = "64 word"

text \<open>
  A Go \<^verbatim>\<open>error\<close> value returned by \<^verbatim>\<open>errors.New\<close> is \<open>Failure\<close> with its message;
  a run-time panic (index or slice bounds out of range) is \<open>Panic\<close>: it is never a
  return value of the Go code, it unwinds every caller.
\<close>

datatype error = Failure string | Panic string

text \<open>
  Modelled from the spec: the output sink (package \<^verbatim>\<open>indenter\<close>) and the hint renderer
  (package \<^verbatim>\<open>hinter\<close>) are collaborators whose code is not part of the decoder. The
  sink "exposes an append-text operation at the current indentation depth, a begin next
  nested level operation returning a new sink scoped to depth+1, and line-terminated
  print operations". An \<^verbatim>\<open>*Indenter\<close> handle is its depth; the text behind all handles
  is one shared sequence of events, threaded through the decoder as state. \<open>Text d s\<close>
  is text \<open>s\<close> appended through a handle of depth \<open>d\<close>; \<open>Hint d bs\<close> is a call of
  \<^verbatim>\<open>hinter.PrintHint\<close> with a handle of depth \<open>d\<close> on the bytes \<open>bs\<close>.
\<close>

datatype event = Text nat string | Hint nat "byte list"

type_synonym sink = "event list"

text \<open>
  The remaining collaborators are taken as parameters: the name table \<^verbatim>\<open>oids.Name\<close>
  and the two decoders of \<^verbatim>\<open>golang.org/x/text\<close> behind \<^verbatim>\<open>utf16ToUtf8\<close> and
  \<^verbatim>\<open>utf32ToUtf8\<close>.
\<close>

record collab =
  oids_Name :: "string \<Rightarrow> string"
  utf16_Bytes :: "byte list \<Rightarrow> error + byte list"
  utf32_Bytes :: "byte list \<Rightarrow> error + byte list"

section \<open>Formatting\<close>

text \<open>\<^verbatim>\<open>strconv.Itoa\<close> and the verb \<^verbatim>\<open>%d\<close>: decimal digits, a minus sign when negative.\<close>

fun digits :: "nat \<Rightarrow> string" where
  "digits n = (if n < 10 then [''0123456789'' ! n]
               else digits (n div 10) @ [''0123456789'' ! (n mod 10)])"

declare digits.simps [simp del]

definition itoa :: "int \<Rightarrow> string" where
  "itoa i = (if i < 0 then CHR ''-'' # digits (nat (- i)) else digits (nat i))"

text \<open>The verbs \<^verbatim>\<open>%02X\<close> and \<^verbatim>\<open>%02x\<close> on a byte.\<close>

definition hex02X :: "byte \<Rightarrow> string" where
  "hex02X v = [''0123456789ABCDEF'' ! (unat v div 16), ''0123456789ABCDEF'' ! (unat v mod 16)]"

definition hex02x :: "byte \<Rightarrow> string" where
  "hex02x v = [''0123456789abcdef'' ! (unat v div 16), ''0123456789abcdef'' ! (unat v mod 16)]"

text \<open>The verb \<^verbatim>\<open>%s\<close> on a byte slice: the bytes themselves.\<close>

definition bytes_string :: "byte list \<Rightarrow> string" where
  "bytes_string bs = map (\<lambda>v. char_of (unat v)) bs"

section \<open>The sink's operations\<close>

text \<open>
  Modelled from the spec: the methods of \<^verbatim>\<open>indenter.Indenter\<close> and \<^verbatim>\<open>hinter.PrintHint\<close>
  that the decoder calls; their code is not part of the decoder. Each takes the depth
  of the handle it is called on and appends one event to the text of the sink.
  \<^verbatim>\<open>Printf\<close> is \<^verbatim>\<open>Print\<close> of the formatted string.
\<close>

definition Print :: "nat \<Rightarrow> string \<Rightarrow> sink \<Rightarrow> sink" where
  "Print out s w = w @ [Text out s]"

text \<open>\<^verbatim>\<open>Println\<close> follows \<^verbatim>\<open>fmt.Sprintln\<close>: operands separated by spaces, then a newline.\<close>

fun spaced :: "string list \<Rightarrow> string" where
  "spaced [] = []"
| "spaced [a] = a"
| "spaced (a # b # as) = a @ '' '' @ spaced (b # as)"

definition Println :: "nat \<Rightarrow> string list \<Rightarrow> sink \<Rightarrow> sink" where
  "Println out args w = w @ [Text out (spaced args @ [CHR 0x0A])]"

definition Write :: "nat \<Rightarrow> byte list \<Rightarrow> sink \<Rightarrow> sink" where
  "Write out bs w = w @ [Text out (bytes_string bs)]"

definition NextLevel :: "nat \<Rightarrow> nat" where
  "NextLevel out = Suc out"

definition PrintHint :: "nat \<Rightarrow> byte list \<Rightarrow> sink \<Rightarrow> sink" where
  "PrintHint out content w = w @ [Hint out content]"

text \<open>All the text of a sink in the order written, indentation and hints left out.\<close>

fun rendered :: "sink \<Rightarrow> string" where
  "rendered [] = []"
| "rendered (Text d s # w) = s @ rendered w"
| "rendered (Hint d bs # w) = rendered w"

section \<open>Length decoder\<close>

text \<open>
  \<^verbatim>\<open>decodeLength\<close>, lines 257-274. The accumulator \<^verbatim>\<open>length\<close> is a Go \<^verbatim>\<open>int\<close>.
  Reading \<^verbatim>\<open>data[0]\<close> of an empty slice panics.
\<close>

fun decodeLength_loop :: "byte list \<Rightarrow> goint \<Rightarrow> goint" where
  "decodeLength_loop [] len = len"
| "decodeLength_loop (b # bs) len = decodeLength_loop bs (len * 256 + ucast b)"

definition decodeLength :: "byte list \<Rightarrow> error + (goint \<times> byte list)" where
  "decodeLength data =
     (if data = [] then Inl (Panic ''index out of range [0] with length 0'')
      else
        let firstByte = data ! 0 in
        if firstByte AND 0x80 \<noteq> 0 then
          let numToRead = unat (firstByte XOR 0x80) in
          if int (length data) - 1 < int numToRead then
            Inl (Failure (''Can't satisfy request to read '' @ itoa (int numToRead) @
                          '' bytes to get length''))
          else
            Inr (decodeLength_loop (take numToRead (drop 1 data)) 0, drop (1 + numToRead) data)
        else Inr (ucast firstByte, drop 1 data))"

section \<open>Content interpreters\<close>

abbreviation nl :: string where "nl \<equiv> [CHR 0x0A]"

text \<open>\<^verbatim>\<open>printOctets\<close>, lines 319-324.\<close>

definition printOctets :: "nat \<Rightarrow> byte list \<Rightarrow> sink \<Rightarrow> sink" where
  "printOctets out content w =
     fold (\<lambda>v w. Print out (hex02X v) w) content (Print out '':'' w)"

text \<open>\<^verbatim>\<open>printString\<close>, lines 276-286: newline is byte 10, carriage return byte 13.\<close>

definition printString :: "nat \<Rightarrow> byte list \<Rightarrow> sink \<Rightarrow> sink" where
  "printString out content w =
     fold (\<lambda>v w. if v = 0x0A then Print out [CHR 0x5C, CHR ''n''] w
                  else if v = 0x0D then Print out [CHR 0x5C, CHR ''r''] w
                  else Write out [v] w) content w"

text \<open>\<^verbatim>\<open>handleData\<close>, lines 288-293.\<close>

definition handleData :: "string \<Rightarrow> nat \<Rightarrow> byte list \<Rightarrow> sink \<Rightarrow> sink" where
  "handleData label out content w =
     (let w1 = Print out (label @ '' '') w;
          w2 = printOctets out content w1;
          w3 = Print out nl w2
      in PrintHint out content w3)"

text \<open>\<^verbatim>\<open>handleString\<close>, lines 295-299.\<close>

definition handleString :: "string \<Rightarrow> nat \<Rightarrow> byte list \<Rightarrow> sink \<Rightarrow> sink" where
  "handleString label out content w =
     (let w1 = Print out (label @ '' '') w;
          w2 = printString out content w1
      in Print out nl w2)"

text \<open>
  \<^verbatim>\<open>handleInteger\<close>, lines 301-317. \<^verbatim>\<open>value\<close> is an \<^verbatim>\<open>int64\<close>. When neither condition
  holds the function returns without having printed anything.
\<close>

fun handleInteger_loop :: "byte list \<Rightarrow> goint \<Rightarrow> goint" where
  "handleInteger_loop [] val = val"
| "handleInteger_loop (v # vs) val = handleInteger_loop vs (val * 256 + ucast v)"

definition handleInteger :: "string \<Rightarrow> nat \<Rightarrow> byte list \<Rightarrow> sink \<Rightarrow> sink" where
  "handleInteger label out content w =
     (if length content > 0 \<and> length content < 8 \<and> (content ! 0) AND 0x80 = 0 then
        let val = (if (content ! 0) AND 0x80 = 0 then handleInteger_loop content 0 else 0)
        in Println out [label, itoa (sint val)] w
      else if length content > 8 \<or> length content = 0 \<or> (content ! 0) AND 0x80 \<noteq> 0 then
        handleData label out content w
      else w)"

text \<open>
  The arc loop shared by the OBJECT IDENTIFIER and RELATIVE OID cases (lines 152-159 and
  183-190): \<^verbatim>\<open>build\<close> is a Go \<^verbatim>\<open>int\<close>, \<^verbatim>\<open>oid\<close> the string built so far.
\<close>

fun oid_loop :: "byte list \<Rightarrow> goint \<Rightarrow> string \<Rightarrow> string" where
  "oid_loop [] build oid = oid"
| "oid_loop (v # vs) build oid =
     (let build' = build * 128 + ucast (v AND 0x7f)
      in if v AND 0x80 = 0 then oid_loop vs 0 (oid @ ''.'' @ itoa (sint build'))
         else oid_loop vs build' oid)"

definition utf16ToUtf8 :: "collab \<Rightarrow> byte list \<Rightarrow> error + byte list" where
  "utf16ToUtf8 E input = utf16_Bytes E input"

definition utf32ToUtf8 :: "collab \<Rightarrow> byte list \<Rightarrow> error + byte list" where
  "utf32ToUtf8 E input = utf32_Bytes E input"

section \<open>Constants\<close>

abbreviation classUniversal :: byte where "classUniversal \<equiv> 0x00"
abbreviation classApplication :: byte where "classApplication \<equiv> 0x40"
abbreviation classContextSpecific :: byte where "classContextSpecific \<equiv> 0x80"
abbreviation classPrivate :: byte where "classPrivate \<equiv> 0xC0"

abbreviation composed :: byte where "composed \<equiv> 0x20"
abbreviation primitive :: byte where "primitive \<equiv> 0x00"

abbreviation typeEndOfContent :: byte where "typeEndOfContent \<equiv> 0x00"
abbreviation typeBoolean :: byte where "typeBoolean \<equiv> 0x01"
abbreviation typeInteger :: byte where "typeInteger \<equiv> 0x02"
abbreviation typeBitString :: byte where "typeBitString \<equiv> 0x03"
abbreviation typeOctetString :: byte where "typeOctetString \<equiv> 0x04"
abbreviation typeNull :: byte where "typeNull \<equiv> 0x05"
abbreviation typeObjectIdentifier :: byte where "typeObjectIdentifier \<equiv> 0x06"
abbreviation typeObjectDescription :: byte where "typeObjectDescription \<equiv> 0x07"
abbreviation typeExternal :: byte where "typeExternal \<equiv> 0x08"
abbreviation typeReal :: byte where "typeReal \<equiv> 0x09"
abbreviation typeEnumerated :: byte where "typeEnumerated \<equiv> 0x0A"
abbreviation typeEmbeddedPDV :: byte where "typeEmbeddedPDV \<equiv> 0x0B"
abbreviation typeUtf8String :: byte where "typeUtf8String \<equiv> 0x0C"
abbreviation typeRelativeOID :: byte where "typeRelativeOID \<equiv> 0x0D"
abbreviation typeSequence :: byte where "typeSequence \<equiv> 0x10"
abbreviation typeSet :: byte where "typeSet \<equiv> 0x11"
abbreviation typeNumericString :: byte where "typeNumericString \<equiv> 0x12"
abbreviation typePrintableString :: byte where "typePrintableString \<equiv> 0x13"
abbreviation typeT61String :: byte where "typeT61String \<equiv> 0x14"
abbreviation typeVideotexString :: byte where "typeVideotexString \<equiv> 0x15"
abbreviation typeIA5String :: byte where "typeIA5String \<equiv> 0x16"
abbreviation typeUTCTime :: byte where "typeUTCTime \<equiv> 0x17"
abbreviation typeGeneralizedTime :: byte where "typeGeneralizedTime \<equiv> 0x18"
abbreviation typeGraphicString :: byte where "typeGraphicString \<equiv> 0x19"
abbreviation typeVisibleString :: byte where "typeVisibleString \<equiv> 0x1A"
abbreviation typeGeneralString :: byte where "typeGeneralString \<equiv> 0x1B"
abbreviation typeUniversalString :: byte where "typeUniversalString \<equiv> 0x1C"
abbreviation typeCharacterString :: byte where "typeCharacterString \<equiv> 0x1D"
abbreviation typeBMPString :: byte where "typeBMPString \<equiv> 0x1E"
abbreviation typeIsLongFormTag :: byte where "typeIsLongFormTag \<equiv> 0x1F"

section \<open>TLV decoder\<close>

text \<open>
  \<^verbatim>\<open>Parse\<close> (lines 55-64) and \<^verbatim>\<open>parseElement\<close> (lines 66-255). Both take the sink's
  text \<open>w\<close> and return it updated, with the error or the result. The \<^verbatim>\<open>switch\<close> on
  \<^verbatim>\<open>typeByte\<close> is the chain of conditionals, in the order of the source; a case that
  returns an error yields \<open>Some\<close> of it, a case that falls out of the \<^verbatim>\<open>switch\<close>
  yields \<open>None\<close> and the function returns \<^verbatim>\<open>rest\<close>. In the SET and SEQUENCE cases
  the value returned by the nested \<^verbatim>\<open>Parse\<close> is dropped by the source; only a panic
  of the nested call goes on unwinding. Slicing \<^verbatim>\<open>rest[:contentLen]\<close> with a negative
  \<^verbatim>\<open>contentLen\<close> panics, and so does \<^verbatim>\<open>oid[1:]\<close> on an empty string.
\<close>

text \<open>
  The two \<^verbatim>\<open>switch\<close> statements of \<^verbatim>\<open>parseElement\<close> that print the class label (lines
  80-89) and the composed or primitive label (lines 91-96). Neither has a default case.
\<close>

definition switch_typeClass :: "byte \<Rightarrow> nat \<Rightarrow> sink \<Rightarrow> sink" where
  "switch_typeClass typeClass out w =
     (if typeClass = classUniversal then Print out ''UNIVERSAL '' w
      else if typeClass = classApplication then Print out ''APPLICATION '' w
      else if typeClass = classContextSpecific then Print out ''CONTEXT-SPECIFIC '' w
      else if typeClass = classPrivate then Print out ''PRIVATE '' w
      else w)"

definition switch_typeComposed :: "byte \<Rightarrow> nat \<Rightarrow> sink \<Rightarrow> sink" where
  "switch_typeComposed typeComposed out w =
     (if typeComposed = primitive then Print out ''PRIMITIVE '' w
      else if typeComposed = composed then Print out ''COMPOSED '' w
      else w)"

function Parse :: "collab \<Rightarrow> nat \<Rightarrow> byte list \<Rightarrow> sink \<Rightarrow> sink \<times> (error + unit)"
  and parseElement :: "collab \<Rightarrow> nat \<Rightarrow> byte list \<Rightarrow> sink \<Rightarrow> sink \<times> (error + byte list)"
where
  "Parse E out data w =
     (if length data > 0 then
        (case parseElement E out data w of
           (w', Inl err) \<Rightarrow> (w', Inl err)
         | (w', Inr data') \<Rightarrow> Parse E out data' w')
      else (w, Inr ()))"
| "parseElement E out data w =
     (if length data < 2 then
        (w, Inl (Failure (''short DER read, need at least two bytes, got '' @
                          itoa (int (length data)))))
      else
        let typeByte = data ! 0;
            typeTag = typeByte AND 0x1F;
            typeComposed = typeByte AND 0x20;
            typeClass = typeByte AND 0xC0
        in
        if typeTag = typeIsLongFormTag then
          (w, Inl (Failure ''Long form DER types not implemented''))
        else
          let w1 = switch_typeClass typeClass out w;
              w2 = switch_typeComposed typeComposed out w1
          in
          case decodeLength (drop 1 data) of
            Inl err \<Rightarrow> (w2, Inl err)
          | Inr (contentLen, rest0) \<Rightarrow>
             (if int (length rest0) < sint contentLen then
                (w2, Inl (Failure (''Short content, need '' @ itoa (sint contentLen) @
                                   '' bytes but have '' @ itoa (int (length rest0)))))
              else if sint contentLen < 0 then
                (w2, Inl (Panic ''slice bounds out of range''))
              else
                let content = take (nat (sint contentLen)) rest0;
                    rest = drop (nat (sint contentLen)) rest0
                in
                case
                  (if typeByte = typeEndOfContent OR primitive then
                     (if contentLen \<noteq> 0 then
                        (w2, Some (Failure (''End-of-content had unexpected length '' @
                                            itoa (sint contentLen))))
                      else (Println out [''END-OF-CONTENT''] w2, None))
                   else if typeByte = typeBoolean OR primitive then
                     (if contentLen \<noteq> 1 then
                        (w2, Some (Failure (''Boolean had unexpected length '' @
                                            itoa (sint contentLen))))
                      else if content ! 0 = 0 then (Println out [''BOOLEAN FALSE''] w2, None)
                      else (Println out [''BOOLEAN TRUE''] w2, None))
                   else if typeByte = typeInteger OR primitive then
                     (handleInteger ''INTEGER'' out content w2, None)
                   else if typeByte = typeBitString OR primitive then
                     (if sint contentLen < 1 then
                        (w2, Some (Failure ''BitString had no padding byte''))
                      else
                        let padding = (ucast (content ! 0) :: goint) in
                        if sint padding < 0 \<or> sint padding > 7 then
                          (w2, Some (Failure (''BitString padding has illegal value '' @
                                              itoa (sint padding))))
                        else
                          let w3 = Print out (''BITSTRING PAD='' @ itoa (sint padding) @ '' '') w2;
                              w4 = printOctets out (drop 1 content) w3
                          in (Print out nl w4, None))
                   else if typeByte = typeOctetString OR primitive then
                     (handleData ''OCTETSTRING'' out content w2, None)
                   else if typeByte = typeNull OR primitive then
                     (if contentLen \<noteq> 0 then (w2, Some (Failure ''Null has non-zero content''))
                      else (Print out (''NULL'' @ nl) w2, None))
                   else if typeByte = typeObjectIdentifier OR primitive then
                     (if sint contentLen < 1 then (w2, Some (Failure ''OID doesn't have content''))
                      else
                        let first = content ! 0 div 40;
                            second = content ! 0 mod 40;
                            oid0 = itoa (uint first) @ ''.'' @ itoa (uint second);
                            oid = oid_loop (drop 1 content) 0 oid0;
                            w3 = Println out [''OID'', oid] w2;
                            oidHint = oids_Name E oid
                        in if oidHint \<noteq> [] then (Println out [''#'', oidHint] w3, None)
                           else (w3, None))
                   else if typeByte = typeObjectDescription OR primitive then
                     (handleData ''OBJECTDESCRIPTION'' out content w2, None)
                   else if typeByte = typeExternal OR composed then
                     (handleData ''EXTERNAL'' out content w2, None)
                   else if typeByte = typeReal OR primitive then
                     (handleData ''REAL'' out content w2, None)
                   else if typeByte = typeEnumerated OR primitive then
                     (handleInteger ''ENUMERATED'' out content w2, None)
                   else if typeByte = typeEmbeddedPDV OR composed then
                     (handleData ''EMBEDDED-PDV'' out content w2, None)
                   else if typeByte = typeUtf8String OR primitive then
                     (handleString ''UTF8STRING'' out content w2, None)
                   else if typeByte = typeRelativeOID OR primitive then
                     (if sint contentLen < 1 then
                        (w2, Some (Failure ''Relative OID doesn't have content''))
                      else
                        let oid0 = oid_loop content 0 [] in
                        if length oid0 < 1 then
                          (w2, Some (Panic ''slice bounds out of range [1:0]''))
                        else
                          let oid = drop 1 oid0;
                              w3 = Println out [''RELATIVEOID'', oid] w2;
                              oidHint = oids_Name E oid
                          in if oidHint \<noteq> [] then (Println out [''#'', oidHint] w3, None)
                             else (w3, None))
                   else if typeByte = typeNumericString OR primitive then
                     (handleString ''NUMERICSTRING'' out content w2, None)
                   else if typeByte = typePrintableString OR primitive then
                     (handleString ''PRINTABLESTRING'' out content w2, None)
                   else if typeByte = typeSet OR composed then
                     (case Parse E (NextLevel out) content (Println out [''SET''] w2) of
                        (w3, Inl (Panic p)) \<Rightarrow> (w3, Some (Panic p))
                      | (w3, _) \<Rightarrow> (w3, None))
                   else if typeByte = typeSequence OR composed then
                     (case Parse E (NextLevel out) content (Println out [''SEQUENCE''] w2) of
                        (w3, Inl (Panic p)) \<Rightarrow> (w3, Some (Panic p))
                      | (w3, _) \<Rightarrow> (w3, None))
                   else if typeByte = typeT61String OR primitive then
                     (handleData ''T61STRING'' out content w2, None)
                   else if typeByte = typeVideotexString OR primitive then
                     (handleData ''VIDEOTEXSTRING'' out content w2, None)
                   else if typeByte = typeIA5String OR primitive then
                     (handleString ''IA5STRING'' out content w2, None)
                   else if typeByte = typeUTCTime OR primitive then
                     (let w3 = handleData ''UTCTIME'' out content w2 in
                      if length content = 13 \<and> content ! 12 = 0x5A then
                        (Print out (''# 20'' @ bytes_string (take 2 content) @ ''-'' @
                                    bytes_string (take 2 (drop 2 content)) @ ''-'' @
                                    bytes_string (take 2 (drop 4 content)) @ '' '' @
                                    bytes_string (take 2 (drop 6 content)) @ '':'' @
                                    bytes_string (take 2 (drop 8 content)) @ '':'' @
                                    bytes_string (take 2 (drop 10 content)) @ '' GMT'' @ nl) w3,
                         None)
                      else if length content = 11 \<and> content ! 10 = 0x5A then
                        (Print out (''# 20'' @ bytes_string (take 2 content) @ ''-'' @
                                    bytes_string (take 2 (drop 2 content)) @ ''-'' @
                                    bytes_string (take 2 (drop 4 content)) @ '' '' @
                                    bytes_string (take 2 (drop 6 content)) @ '':'' @
                                    bytes_string (take 2 (drop 8 content)) @ '':00 GMT'' @ nl) w3,
                         None)
                      else (w3, None))
                   else if typeByte = typeGeneralizedTime OR primitive then
                     (handleString ''GENERALIZEDTIME'' out content w2, None)
                   else if typeByte = typeGraphicString OR primitive then
                     (handleData ''GRAPHICSTRING'' out content w2, None)
                   else if typeByte = typeVisibleString OR primitive then
                     (handleString ''VISIBLESTRING'' out content w2, None)
                   else if typeByte = typeGeneralString OR primitive then
                     (handleData ''GENERALSTRING'' out content w2, None)
                   else if typeByte = typeUniversalString OR primitive then
                     (case utf32ToUtf8 E content of
                        Inl err \<Rightarrow> (w2, Some err)
                      | Inr b \<Rightarrow> (handleString ''UNIVERSALSTRING'' out b w2, None))
                   else if typeByte = typeCharacterString OR primitive then
                     (handleData ''CHARACTERSTRING'' out content w2, None)
                   else if typeByte = typeBMPString OR primitive then
                     (case utf16ToUtf8 E content of
                        Inl err \<Rightarrow> (w2, Some err)
                      | Inr b \<Rightarrow> (handleString ''BMPSTRING'' out b w2, None))
                   else
                     (let label = ''UNHANDLED-TAG='' @ hex02x typeTag
                      in (handleData label out content w2, None)))
                of
                  (w', Some err) \<Rightarrow> (w', Inl err)
                | (w', None) \<Rightarrow> (w', Inr rest)))"
  by pat_completeness auto

text \<open>
  Termination. The loop of \<^verbatim>\<open>Parse\<close> goes on with what \<^verbatim>\<open>parseElement\<close> returns, so the
  proof needs that a returned remainder is shorter than the input, wherever
  \<^verbatim>\<open>parseElement\<close> is defined at all.
\<close>

lemma decodeLength_rest:
  assumes "decodeLength xs = Inr (n, rest)"
  shows "\<exists>pre. xs = pre @ rest \<and> 1 \<le> length pre"
proof -
  from assms have ne: "xs \<noteq> []"
    by (auto simp: decodeLength_def)
  from assms ne obtain k where k: "rest = drop (Suc k) xs"
    by (auto simp: decodeLength_def Let_def split: if_splits)
  have "xs = take (Suc k) xs @ rest" using k by simp
  moreover have "1 \<le> length (take (Suc k) xs)" using ne by (cases xs) simp_all
  ultimately show ?thesis by blast
qed

lemma switch_result:
  "(case sw of (w', Some err) \<Rightarrow> (w', Inl err) | (w', None) \<Rightarrow> (w', Inr r)) = (w'', Inr rest)
   \<Longrightarrow> rest = r"
  by (cases sw; cases "snd sw") auto

lemma parseElement_rest_dom:
  assumes dom: "Parse_parseElement_dom (Inr (E, out, data, w))"
    and res: "parseElement E out data w = (w', Inr rest)"
  shows "\<exists>pre. data = pre @ rest \<and> 2 \<le> length pre"
proof -
  note eq = res [unfolded parseElement.psimps [OF dom]]
  have len: "\<not> length data < 2"
  proof
    assume "length data < 2"
    from this eq show False by simp
  qed
  have tag: "data ! 0 AND 0x1F \<noteq> 0x1F"
  proof
    assume "data ! 0 AND 0x1F = 0x1F"
    from len this eq show False by (simp only: Let_def if_True if_False) simp
  qed
  obtain contentLen rest0 where dl: "decodeLength (drop 1 data) = Inr (contentLen, rest0)"
  proof (cases "decodeLength (drop 1 data)")
    case (Inl e)
    from len tag this eq have False by (simp only: Let_def if_True if_False sum.case) simp
    then show ?thesis ..
  next
    case (Inr p)
    then show ?thesis using that by (cases p) simp
  qed
  have c1: "\<not> int (length rest0) < sint contentLen"
  proof
    assume "int (length rest0) < sint contentLen"
    from len tag dl this eq show False
      by (simp only: Let_def if_True if_False sum.case prod.case) simp
  qed
  have c2: "\<not> sint contentLen < 0"
  proof
    assume "sint contentLen < 0"
    from len tag dl c1 this eq show False
      by (simp only: Let_def if_True if_False sum.case prod.case) simp
  qed
  have r: "rest = drop (nat (sint contentLen)) rest0"
    using len tag dl c1 c2 eq
    by (simp only: Let_def if_True if_False sum.case prod.case) (rule switch_result)
  from decodeLength_rest [OF dl] obtain pre where pre: "drop 1 data = pre @ rest0" "1 \<le> length pre"
    by blast
  have "data = take 1 data @ drop 1 data" by simp
  also have "\<dots> = (take 1 data @ pre @ take (nat (sint contentLen)) rest0) @ rest"
    using pre r by simp
  finally have "data = (take 1 data @ pre @ take (nat (sint contentLen)) rest0) @ rest" .
  moreover have "2 \<le> length (take 1 data @ pre @ take (nat (sint contentLen)) rest0)"
    using len pre(2) by simp
  ultimately show ?thesis by blast
qed

lemma decodeLength_shorter:
  assumes "decodeLength (drop 1 data) = Inr (n, rest0)"
  shows "length rest0 + 2 \<le> length data"
proof -
  from decodeLength_rest [OF assms] obtain pre
    where pre: "drop 1 data = pre @ rest0" "1 \<le> length pre" by blast
  from pre(1) have "length (drop 1 data) = length pre + length rest0" by simp
  with pre(2) show ?thesis by simp
qed

lemma Parse_parseElement_total: "Parse_parseElement_dom x"
proof (induction x rule: "Parse_parseElement.termination"
    [of "measure (\<lambda>x. case x of Inl (E, out, data, w) \<Rightarrow> 2 * length data + 1
                                | Inr (E, out, data, w) \<Rightarrow> 2 * length data)", rule_format],
    goal_cases)
  case 1
  show ?case by simp
next
  case (2 E out data w)
  show ?case by simp
next
  case (3 E out data w x y b)
  from 3(2,3) have "parseElement E out data w = (x, Inr b)" by simp
  from parseElement_rest_dom [OF 3(4) this] show ?case by auto
next
  case 4
  then show ?case by (auto dest!: decodeLength_shorter [unfolded One_nat_def])
next
  case 5
  then show ?case by (auto dest!: decodeLength_shorter [unfolded One_nat_def])
qed

termination Parse
  using Parse_parseElement_total by blast

declare Parse.simps [simp del] parseElement.simps [simp del]

section \<open>Definitions for the statements\<close>

text \<open>
  A concrete set of collaborators for evaluating the decoder on concrete inputs: a name
  table that knows no identifier and decoders that hand the bytes back.
\<close>

definition stubs :: collab where
  "stubs = \<lparr>oids_Name = (\<lambda>oid. []), utf16_Bytes = Inr, utf32_Bytes = Inr\<rparr>"

text \<open>Follows the spec's words: the big-endian unsigned integer formed from the bytes.\<close>

definition bigEndian :: "byte list \<Rightarrow> int" where
  "bigEndian bs = foldl (\<lambda>n b. n * 256 + uint b) 0 bs"




text \<open>
  Follows the spec's words: the comment line \<^verbatim>\<open># 20YY-MM-DD HH:MM:SS GMT\<close> for a content
  of 13 bytes \<^verbatim>\<open>YYMMDDHHMMSSZ\<close>, the same with seconds \<^verbatim>\<open>:00\<close> for a content of 11 bytes
  \<^verbatim>\<open>YYMMDDHHMMZ\<close>, and no comment for any other content.
\<close>

definition utc_comment :: "byte list \<Rightarrow> string option" where
  "utc_comment c =
     (if length c = 13 \<and> c ! 12 = 0x5A then
        Some (''# 20'' @ bytes_string [c ! 0, c ! 1] @ ''-'' @ bytes_string [c ! 2, c ! 3] @ ''-'' @
              bytes_string [c ! 4, c ! 5] @ '' '' @ bytes_string [c ! 6, c ! 7] @ '':'' @
              bytes_string [c ! 8, c ! 9] @ '':'' @ bytes_string [c ! 10, c ! 11] @ '' GMT'' @ nl)
      else if length c = 11 \<and> c ! 10 = 0x5A then
        Some (''# 20'' @ bytes_string [c ! 0, c ! 1] @ ''-'' @ bytes_string [c ! 2, c ! 3] @ ''-'' @
              bytes_string [c ! 4, c ! 5] @ '' '' @ bytes_string [c ! 6, c ! 7] @ '':'' @
              bytes_string [c ! 8, c ! 9] @ '':00 GMT'' @ nl)
      else None)"

section \<open>Auxiliary facts\<close>

lemma bit_0x80: "bit (0x80 :: byte) n \<longleftrightarrow> n = 7"
proof -
  have "(0x80 :: byte) = 2 ^ 7" by simp
  then have "bit (0x80 :: byte) n \<longleftrightarrow> bit (2 ^ 7 :: byte) n" by (simp only:)
  also have "\<dots> \<longleftrightarrow> n = 7" by (subst bit_exp_iff) (auto simp: possible_bit_word)
  finally show ?thesis .
qed

lemma bit_0x7F: "bit (0x7F :: byte) n \<longleftrightarrow> n < 7"
proof -
  have "(0x7F :: byte) = mask 7" by (simp add: mask_eq_exp_minus_1)
  then have "bit (0x7F :: byte) n \<longleftrightarrow> bit (mask 7 :: byte) n" by (simp only:)
  also have "\<dots> \<longleftrightarrow> n < 7" by (subst bit_mask_iff) (auto simp: possible_bit_word)
  finally show ?thesis .
qed

lemma high_bit: "(b :: byte) AND 0x80 \<noteq> 0 \<longleftrightarrow> bit b 7"
  apply (subst bit_eq_iff)
  apply (simp only: bit_and_iff bit_0x80)
  apply auto
  done

lemma xor_high_bit: "(b :: byte) AND 0x80 \<noteq> 0 \<Longrightarrow> b XOR 0x80 = b AND 0x7F"
  unfolding high_bit
  apply (rule bit_word_eqI)
  apply (simp only: bit_xor_iff bit_and_iff bit_0x80 bit_0x7F)
  apply (auto simp: less_Suc_eq numeral_eq_Suc)
  done

lemma short_le: "(b :: byte) AND 0x80 = 0 \<Longrightarrow> uint b \<le> 127"
proof -
  assume "b AND 0x80 = 0"
  then have "\<not> bit b 7" using high_bit by blast
  then have "take_bit 7 b = b"
    by (intro bit_word_eqI) (auto simp: bit_simps less_Suc_eq numeral_eq_Suc)
  then have "uint b = take_bit 7 (uint b)" by (metis unsigned_take_bit_eq)
  then have "uint b < 2 ^ 7" by (metis take_bit_int_less_exp)
  then show ?thesis by simp
qed

lemma sint_ucast_byte: "sint (ucast (b :: byte) :: goint) = uint b"
proof -
  have lt: "uint b < 256" using unsigned_less [of b, where 'a = int] by simp
  have ge: "0 \<le> uint b" by simp
  from ge have lo: "- 9223372036854775808 \<le> uint b" by linarith
  from lt have hi: "uint b < 9223372036854775808" by linarith
  from lo hi show ?thesis
    by (simp add: signed_ucast_eq signed_take_bit_int_eq_self_iff) 
qed

lemma sint_of_int_small: "0 \<le> n \<Longrightarrow> n < 2 ^ 63 \<Longrightarrow> sint (of_int n :: goint) = n"
  by (simp add: signed_of_int signed_take_bit_int_eq_self_iff)

lemma decodeLength_loop_of_int:
  "decodeLength_loop bs (of_int n) = of_int (foldl (\<lambda>n b. n * 256 + uint b) n bs)"
proof (induction bs arbitrary: n)
  case Nil
  show ?case by simp
next
  case (Cons b bs)
  have "of_int n * 256 + ucast b = (of_int (n * 256 + uint b) :: goint)" by simp
  then have "decodeLength_loop (b # bs) (of_int n) = decodeLength_loop bs (of_int (n * 256 + uint b))"
    by (simp only: decodeLength_loop.simps)
  also have "\<dots> = of_int (foldl (\<lambda>n b. n * 256 + uint b) (n * 256 + uint b) bs)"
    by (rule Cons)
  finally show ?case by (simp only: foldl_Cons)
qed

lemma foldl_bound:
  "0 \<le> n \<Longrightarrow> 0 \<le> foldl (\<lambda>n b. n * 256 + uint (b :: byte)) n bs \<and>
     foldl (\<lambda>n b. n * 256 + uint (b :: byte)) n bs < (n + 1) * 256 ^ length bs"
proof (induction bs arbitrary: n)
  case Nil
  then show ?case by simp
next
  case (Cons b bs)
  have lt: "uint b < 256" using unsigned_less [of b, where 'a = int] by simp
  have ge: "0 \<le> uint b" by simp
  from Cons.prems ge have nn: "0 \<le> n * 256 + uint b" by simp
  from lt have "n * 256 + uint b + 1 \<le> (n + 1) * 256" by simp
  then have "(n * 256 + uint b + 1) * 256 ^ length bs \<le> ((n + 1) * 256) * 256 ^ length bs"
    by (rule mult_right_mono) simp
  also have "\<dots> = (n + 1) * 256 ^ length (b # bs)" by (simp add: algebra_simps)
  finally have le: "(n * 256 + uint b + 1) * 256 ^ length bs \<le> (n + 1) * 256 ^ length (b # bs)" .
  from Cons.IH [OF nn] le
  have "0 \<le> foldl (\<lambda>n b. n * 256 + uint b) (n * 256 + uint b) bs \<and>
        foldl (\<lambda>n b. n * 256 + uint b) (n * 256 + uint b) bs < (n + 1) * 256 ^ length (b # bs)"
    by linarith
  then show ?case by (simp only: foldl_Cons)
qed


lemma decodeLength_loop_bigEndian: "decodeLength_loop bs 0 = of_int (bigEndian bs)"
  using decodeLength_loop_of_int [of bs 0] by (simp add: bigEndian_def)

lemma bigEndian_bound: "0 \<le> bigEndian bs \<and> bigEndian bs < 256 ^ length bs"
  using foldl_bound [of 0 bs] by (simp add: bigEndian_def)

text \<open>The events of a hex dump, and facts for the OBJECT IDENTIFIER and UTCTIME cases.\<close>

lemma printOctets_events:
  "printOctets out content w = w @ Text out '':'' # map (\<lambda>v. Text out (hex02X v)) content"
proof -
  have "fold (\<lambda>v w. Print out (hex02X v) w) content v =
        v @ map (\<lambda>v. Text out (hex02X v)) content" for v
    by (induction content arbitrary: v) (simp_all add: Print_def)
  then show ?thesis by (simp add: printOctets_def Print_def)
qed

lemma handleData_events:
  "handleData label out content w =
     w @ [Text out (label @ '' ''), Text out '':''] @ map (\<lambda>v. Text out (hex02X v)) content @
     [Text out nl, Hint out content]"
  by (simp add: handleData_def Let_def printOctets_events Print_def PrintHint_def)

lemma take2_drop:
  assumes "k + 2 \<le> length c"
  shows "take 2 (drop k c) = [c ! k, c ! (k + 1)]"
proof -
  have "take (Suc (Suc 0)) (drop k c) = [drop k c ! 0, drop k c ! 1]"
    using assms by (simp add: take_Suc_conv_app_nth)
  with assms show ?thesis by (simp add: numeral_2_eq_2)
qed


lemmas header_defs = Let_def Print_def Println_def switch_typeClass_def switch_typeComposed_def








lemma utc_comment_source:
  "(case utc_comment c of None \<Rightarrow> [] | Some line \<Rightarrow> [Text out line]) =
     (if length c = 13 \<and> c ! 12 = 0x5A then
        [Text out (''# 20'' @ bytes_string (take 2 c) @ ''-'' @
                   bytes_string (take 2 (drop 2 c)) @ ''-'' @
                   bytes_string (take 2 (drop 4 c)) @ '' '' @
                   bytes_string (take 2 (drop 6 c)) @ '':'' @
                   bytes_string (take 2 (drop 8 c)) @ '':'' @
                   bytes_string (take 2 (drop 10 c)) @ '' GMT'' @ nl)]
      else if length c = 11 \<and> c ! 10 = 0x5A then
        [Text out (''# 20'' @ bytes_string (take 2 c) @ ''-'' @
                   bytes_string (take 2 (drop 2 c)) @ ''-'' @
                   bytes_string (take 2 (drop 4 c)) @ '' '' @
                   bytes_string (take 2 (drop 6 c)) @ '':'' @
                   bytes_string (take 2 (drop 8 c)) @ '':00 GMT'' @ nl)]
      else [])"
proof (cases "length c = 13")
  case True
  then have pieces:
    "take 2 c = [c ! 0, c ! 1]"
    "take 2 (drop 2 c) = [c ! 2, c ! 3]"
    "take 2 (drop 4 c) = [c ! 4, c ! 5]"
    "take 2 (drop 6 c) = [c ! 6, c ! 7]"
    "take 2 (drop 8 c) = [c ! 8, c ! 9]"
    "take 2 (drop 10 c) = [c ! 10, c ! 11]"
    using take2_drop [of 0 c] take2_drop [of 2 c] take2_drop [of 4 c]
      take2_drop [of 6 c] take2_drop [of 8 c] take2_drop [of 10 c]
    by simp_all
  from True show ?thesis
    unfolding utc_comment_def pieces by simp
next
  case False
  show ?thesis
  proof (cases "length c = 11")
    case True
    then have pieces:
      "take 2 c = [c ! 0, c ! 1]"
      "take 2 (drop 2 c) = [c ! 2, c ! 3]"
      "take 2 (drop 4 c) = [c ! 4, c ! 5]"
      "take 2 (drop 6 c) = [c ! 6, c ! 7]"
      "take 2 (drop 8 c) = [c ! 8, c ! 9]"
      using take2_drop [of 0 c] take2_drop [of 2 c] take2_drop [of 4 c]
        take2_drop [of 6 c] take2_drop [of 8 c]
      by simp_all
    from True show ?thesis
      unfolding utc_comment_def pieces by simp
  next
    case False
    with \<open>length c \<noteq> 13\<close> show ?thesis
      unfolding utc_comment_def by simp
  qed
qed


section \<open>Errors inside nested content\<close>

text \<open>
  C1: any structural violation, also one inside the recursively decoded content of a
  composed SEQUENCE or SET, makes the top-level \<^verbatim>\<open>Parse\<close> return an error. The code does
  not do this: the SEQUENCE below holds the single content byte 0x02, whose decoding at
  the next level fails with the short-read error, and the top-level call still returns
  success, because the value returned by the nested \<^verbatim>\<open>Parse\<close> is dropped.
\<close>

theorem nested_error_dropped:
  "Parse stubs (NextLevel 0) [0x02] [] =
     ([], Inl (Failure ''short DER read, need at least two bytes, got 1'')) \<and>
   Parse stubs 0 [0x30, 0x01, 0x02] [] =
     ([Text 0 ''UNIVERSAL '', Text 0 ''COMPOSED '', Text 0 (''SEQUENCE'' @ nl)], Inr ())"
  by code_simp

section \<open>SEQUENCE and SET\<close>

text \<open>
  C2, as stated: whatever the class bits, an element with tag 0x10 or 0x11 and the
  constructed bit set has its content decoded recursively one level deeper. The code
  dispatches on the whole type byte, class bits included: the APPLICATION element below
  (type byte 0x70) is rendered by the default case as a hex dump of its two content
  bytes, all at depth 0, while decoding that content one level deeper would print a NULL
  at depth 1.
\<close>

theorem application_sequence_not_recursed:
  "parseElement stubs 0 [0x70, 0x02, 0x05, 0x00] [] =
     ([Text 0 ''APPLICATION '', Text 0 ''COMPOSED '', Text 0 ''UNHANDLED-TAG=10 '',
       Text 0 '':'', Text 0 ''05'', Text 0 ''00'', Text 0 nl, Hint 0 [0x05, 0x00]], Inr []) \<and>
   Parse stubs (NextLevel 0) [0x05, 0x00] [] =
     ([Text 1 ''UNIVERSAL '', Text 1 ''PRIMITIVE '', Text 1 (''NULL'' @ nl)], Inr ())"
  by code_simp

text \<open>
  C2, amended: content interpretation dispatches on the whole type byte. For an element
  with a well-formed header whose type byte is the constructed bit with tag SEQUENCE
  (0x10) or SET (0x11): under class UNIVERSAL the label SEQUENCE or SET is printed and
  the content is decoded recursively as a nested TLV stream through a sink one level
  deeper; under class APPLICATION, CONTEXT-SPECIFIC or PRIVATE the content is not
  decoded: it is rendered as the hex dump labelled UNHANDLED-TAG=10 or UNHANDLED-TAG=11.
\<close>

theorem sequence_set_dispatch:
  assumes "2 \<le> length data"
    and "decodeLength (drop 1 data) = Inr (contentLen, rest0)"
    and "0 \<le> sint contentLen" and "sint contentLen \<le> int (length rest0)"
    and "content = take (nat (sint contentLen)) rest0"
    and "tag = typeSequence \<or> tag = typeSet"
    and "data ! 0 = cls OR composed OR tag"
  shows "(cls = classUniversal \<longrightarrow>
            fst (parseElement E out data w) =
            fst (Parse E (NextLevel out) content
                  (w @ [Text out ''UNIVERSAL '', Text out ''COMPOSED '',
                        Text out ((if tag = typeSequence then ''SEQUENCE'' else ''SET'') @ nl)]))) \<and>
         (cls = classApplication \<or> cls = classContextSpecific \<or> cls = classPrivate \<longrightarrow>
            parseElement E out data w =
              (w @ [Text out (if cls = classApplication then ''APPLICATION ''
                              else if cls = classContextSpecific then ''CONTEXT-SPECIFIC ''
                              else ''PRIVATE ''),
                    Text out ''COMPOSED '',
                    Text out (if tag = typeSequence then ''UNHANDLED-TAG=10 ''
                              else ''UNHANDLED-TAG=11 ''),
                    Text out '':''] @
                   map (\<lambda>v. Text out (hex02X v)) content @ [Text out nl, Hint out content],
               Inr (drop (nat (sint contentLen)) rest0)))"
proof (intro conjI impI)
  note unfold = parseElement.simps [of E out data w] header_defs handleData_events hex02x_def
  note fold_content = assms(5) [symmetric]
  {
    assume "cls = classUniversal"
    with assms(6) show "fst (parseElement E out data w) =
        fst (Parse E (NextLevel out) content
              (w @ [Text out ''UNIVERSAL '', Text out ''COMPOSED '',
                    Text out ((if tag = typeSequence then ''SEQUENCE'' else ''SET'') @ nl)]))"
      by (elim disjE)
        (use assms(1-4,7) in \<open>simp_all add: unfold fold_content
           split: prod.split sum.split error.split\<close>)
  next
    assume "cls = classApplication \<or> cls = classContextSpecific \<or> cls = classPrivate"
    with assms(6) show "parseElement E out data w =
        (w @ [Text out (if cls = classApplication then ''APPLICATION ''
                        else if cls = classContextSpecific then ''CONTEXT-SPECIFIC ''
                        else ''PRIVATE ''),
              Text out ''COMPOSED '',
              Text out (if tag = typeSequence then ''UNHANDLED-TAG=10 ''
                        else ''UNHANDLED-TAG=11 ''),
              Text out '':''] @
             map (\<lambda>v. Text out (hex02X v)) content @ [Text out nl, Hint out content],
         Inr (drop (nat (sint contentLen)) rest0))"
      by (elim disjE) (use assms(1-4,7) in \<open>simp_all add: unfold fold_content\<close>)
  }
qed

theorem sequence_set_dispatch_witness:
  "fst (parseElement stubs 0 [0x30, 0x02, 0x05, 0x00] []) =
     [Text 0 ''UNIVERSAL '', Text 0 ''COMPOSED '', Text 0 (''SEQUENCE'' @ nl),
      Text 1 ''UNIVERSAL '', Text 1 ''PRIMITIVE '', Text 1 (''NULL'' @ nl)] \<and>
   parseElement stubs 0 [0xB1, 0x02, 0x05, 0x00] [] =
     ([Text 0 ''CONTEXT-SPECIFIC '', Text 0 ''COMPOSED '', Text 0 ''UNHANDLED-TAG=11 '',
       Text 0 '':'', Text 0 ''05'', Text 0 ''00'', Text 0 nl, Hint 0 [0x05, 0x00]], Inr [])"
proof -
  have dl: "decodeLength (drop 1 [0x30, 0x02, 0x05, 0x00]) = Inr (2, [0x05, 0x00])"
    "decodeLength (drop 1 [0xB1, 0x02, 0x05, 0x00]) = Inr (2, [0x05, 0x00])"
    by code_simp+
  have nested: "Parse stubs (NextLevel 0) [0x05, 0x00]
      [Text 0 ''UNIVERSAL '', Text 0 ''COMPOSED '', Text 0 (''SEQUENCE'' @ nl)] =
      ([Text 0 ''UNIVERSAL '', Text 0 ''COMPOSED '', Text 0 (''SEQUENCE'' @ nl),
        Text 1 ''UNIVERSAL '', Text 1 ''PRIMITIVE '', Text 1 (''NULL'' @ nl)], Inr ())"
    by code_simp
  have a: "fst (parseElement stubs 0 [0x30, 0x02, 0x05, 0x00] []) =
     [Text 0 ''UNIVERSAL '', Text 0 ''COMPOSED '', Text 0 (''SEQUENCE'' @ nl),
      Text 1 ''UNIVERSAL '', Text 1 ''PRIMITIVE '', Text 1 (''NULL'' @ nl)]"
    using sequence_set_dispatch [of "[0x30, 0x02, 0x05, 0x00]" 2 "[0x05, 0x00]" "[0x05, 0x00]"
        typeSequence classUniversal stubs 0 "[]"] dl(1) nested
    by simp
  have b: "parseElement stubs 0 [0xB1, 0x02, 0x05, 0x00] [] =
     ([Text 0 ''CONTEXT-SPECIFIC '', Text 0 ''COMPOSED '', Text 0 ''UNHANDLED-TAG=11 '',
       Text 0 '':'', Text 0 ''05'', Text 0 ''00'', Text 0 nl, Hint 0 [0x05, 0x00]], Inr [])"
    using sequence_set_dispatch [of "[0xB1, 0x02, 0x05, 0x00]" 2 "[0x05, 0x00]" "[0x05, 0x00]"
        typeSet classContextSpecific stubs 0 "[]"] dl(2)
    by (simp add: hex02X_def)
  from a b show ?thesis by blast
qed

section \<open>Panics\<close>

text \<open>
  C3: decoding never crashes, in particular on RELATIVE OID content in which every byte
  has its continuation bit set. The code panics there: no arc is ever appended, the
  string stays empty and \<^verbatim>\<open>oid[1:]\<close> is out of range. A second panic is reached through
  a long-form length that wraps to a negative \<^verbatim>\<open>int\<close>: the check against the remaining
  bytes passes and \<^verbatim>\<open>rest[:contentLen]\<close> is out of range.
\<close>

theorem relative_oid_panics:
  "Parse stubs 0 [0x0D, 0x01, 0x80] [] =
     ([Text 0 ''UNIVERSAL '', Text 0 ''PRIMITIVE ''],
      Inl (Panic ''slice bounds out of range [1:0]'')) \<and>
   Parse stubs 0 [0x04, 0x88, 0xFF, 0xFF, 0xFF, 0xFF, 0xFF, 0xFF, 0xFF, 0xFF] [] =
     ([Text 0 ''UNIVERSAL '', Text 0 ''PRIMITIVE ''],
      Inl (Panic ''slice bounds out of range''))"
  by code_simp

section \<open>INTEGER and ENUMERATED\<close>

text \<open>
  C4: every INTEGER or ENUMERATED content gets exactly one of the two renderings, the
  decimal number (length 1 to 7, top bit clear) or the hex dump (every other case). The
  code leaves out contents of exactly 8 bytes whose top bit is clear: the first branch
  asks for a length below 8, the second for a length above 8, and nothing at all is
  written after the class and primitive labels, not even the end of the line.
\<close>

theorem integer_eight_bytes_silent:
  "handleInteger ''INTEGER'' 0 [0x01, 0, 0, 0, 0, 0, 0, 0] [] = [] \<and>
   Parse stubs 0 [0x02, 0x08, 0x01, 0, 0, 0, 0, 0, 0, 0] [] =
     ([Text 0 ''UNIVERSAL '', Text 0 ''PRIMITIVE ''], Inr ())"
  by code_simp

section \<open>NULL\<close>

text \<open>
  C10, as stated: every UNIVERSAL PRIMITIVE element with tag 0x05 fails with an error if
  and only if its content length is nonzero. This fails where the long-form length wraps
  to a negative \<^verbatim>\<open>int\<close>: the length below is \<open>- 1\<close>, not zero, and the code does not
  return an error, it panics when it slices the content.
\<close>

theorem null_negative_length:
  "decodeLength (drop 1 [0x05, 0x88, 0xFF, 0xFF, 0xFF, 0xFF, 0xFF, 0xFF, 0xFF, 0xFF]) =
     Inr (- 1, []) \<and>
   parseElement stubs 0 [0x05, 0x88, 0xFF, 0xFF, 0xFF, 0xFF, 0xFF, 0xFF, 0xFF, 0xFF] [] =
     ([Text 0 ''UNIVERSAL '', Text 0 ''PRIMITIVE ''],
      Inl (Panic ''slice bounds out of range''))"
  by code_simp

text \<open>
  C10, amended: an element with the type byte of a UNIVERSAL PRIMITIVE NULL (0x05) whose
  length prefix decodes to a length that is not negative fails with an error if and only
  if that length is not zero, and a NULL of length zero is rendered as the line NULL
  after the class and primitive labels.
\<close>

theorem null_element:
  assumes "2 \<le> length data" and "data ! 0 = typeNull OR primitive"
    and "decodeLength (drop 1 data) = Inr (contentLen, rest0)"
    and "0 \<le> sint contentLen"
  shows "((\<exists>msg. snd (parseElement E out data w) = Inl (Failure msg)) \<longleftrightarrow> contentLen \<noteq> 0) \<and>
         (contentLen = 0 \<longrightarrow>
            parseElement E out data w =
              (w @ [Text out ''UNIVERSAL '', Text out ''PRIMITIVE '', Text out (''NULL'' @ nl)],
               Inr rest0))"
  using assms
  by (simp add: parseElement.simps [of E out data w] Let_def Print_def
      switch_typeClass_def switch_typeComposed_def)

theorem null_element_witness:
  "parseElement stubs 0 [0x05, 0x00] [] =
     ([Text 0 ''UNIVERSAL '', Text 0 ''PRIMITIVE '', Text 0 (''NULL'' @ nl)], Inr []) \<and>
   (\<exists>msg. snd (parseElement stubs 0 [0x05, 0x01, 0xAA] []) = Inl (Failure msg))"
proof -
  have h0: "decodeLength (drop 1 [0x05, 0x00]) = Inr (0, [])"
    by code_simp
  have h1: "decodeLength (drop 1 [0x05, 0x01, 0xAA]) = Inr (1, [0xAA])"
    by code_simp
  from null_element [of "[0x05, 0x00]" 0 "[]" stubs 0 "[]"] h0
  have a: "parseElement stubs 0 [0x05, 0x00] [] =
     ([Text 0 ''UNIVERSAL '', Text 0 ''PRIMITIVE '', Text 0 (''NULL'' @ nl)], Inr [])"
    by simp
  from null_element [of "[0x05, 0x01, 0xAA]" 1 "[0xAA]" stubs 0 "[]"] h1
  have b: "\<exists>msg. snd (parseElement stubs 0 [0x05, 0x01, 0xAA] []) = Inl (Failure msg)"
    by simp
  from a b show ?thesis by blast
qed

section \<open>Length prefix\<close>

text \<open>
  C5, as stated: in the long form \<^verbatim>\<open>decodeLength\<close> returns the big-endian unsigned integer
  formed from the next \<open>N\<close> bytes. This fails once that integer does not fit the Go
  \<^verbatim>\<open>int\<close>: the nine bytes 01 00 00 00 00 00 00 00 00 form the integer \<open>2 ^ 64\<close> and the
  accumulation \<^verbatim>\<open>length*256 + nextByte\<close> wraps around to 0.
\<close>

theorem decodeLength_wraps:
  "decodeLength [0x89, 0x01, 0, 0, 0, 0, 0, 0, 0, 0] = Inr (0, []) \<and>
   bigEndian [0x01, 0, 0, 0, 0, 0, 0, 0, 0] = 18446744073709551616"
  by code_simp

text \<open>
  C5, amended: for a non-empty slice, a first byte with the high bit clear is returned as
  the length (0 to 127) and exactly one byte is consumed. With the high bit set and low
  7 bits \<open>N\<close>, when at least \<open>N\<close> bytes follow, exactly \<open>1 + N\<close> bytes are consumed and
  the length returned is the big-endian unsigned integer of the next \<open>N\<close> bytes whenever
  that integer is below \<open>2 ^ 63\<close>, the range of the \<^verbatim>\<open>int\<close> returned, in particular
  whenever \<open>N \<le> 7\<close>; it is 0 for \<open>N = 0\<close>. When fewer than \<open>N\<close> bytes follow, the result
  is an error.
\<close>

theorem decodeLength_value:
  assumes ne: "data \<noteq> []" and N: "N = unat (data ! 0 AND 0x7F)"
  shows "(data ! 0 AND 0x80 = 0 \<longrightarrow>
            decodeLength data = Inr (ucast (data ! 0), drop 1 data) \<and>
            sint (ucast (data ! 0) :: goint) = uint (data ! 0) \<and> uint (data ! 0) \<le> 127) \<and>
         (data ! 0 AND 0x80 \<noteq> 0 \<and> N \<le> length data - 1 \<longrightarrow>
            (\<exists>len. decodeLength data = Inr (len, drop (1 + N) data) \<and>
                   length (drop (1 + N) data) + (1 + N) = length data \<and>
                   (bigEndian (take N (drop 1 data)) < 2 ^ 63 \<longrightarrow>
                      sint len = bigEndian (take N (drop 1 data))) \<and>
                   (N \<le> 7 \<longrightarrow> sint len = bigEndian (take N (drop 1 data))) \<and>
                   (N = 0 \<longrightarrow> len = 0))) \<and>
         (data ! 0 AND 0x80 \<noteq> 0 \<and> length data - 1 < N \<longrightarrow>
            (\<exists>msg. decodeLength data = Inl (Failure msg)))"
proof (intro conjI impI)
  assume short: "data ! 0 AND 0x80 = 0"
  with ne show "decodeLength data = Inr (ucast (data ! 0), drop 1 data)"
    by (simp add: decodeLength_def)
  show "sint (ucast (data ! 0) :: goint) = uint (data ! 0)"
    by (rule sint_ucast_byte)
  from short show "uint (data ! 0) \<le> 127"
    by (rule short_le)
next
  assume "data ! 0 AND 0x80 \<noteq> 0 \<and> N \<le> length data - 1"
  then have long: "data ! 0 AND 0x80 \<noteq> 0" and fits: "N \<le> length data - 1"
    by simp_all
  from long N have N': "unat (data ! 0 XOR 0x80) = N"
    by (simp add: xor_high_bit)
  let ?bs = "take N (drop 1 data)"
  let ?len = "decodeLength_loop ?bs 0"
  from ne have pos: "0 < length data" by simp
  from fits pos have cond: "\<not> int (length data) - 1 < int N" by linarith
  have dl: "decodeLength data = Inr (?len, drop (1 + N) data)"
    unfolding decodeLength_def Let_def N' using ne long cond by simp
  have len: "?len = of_int (bigEndian ?bs)"
    by (rule decodeLength_loop_bigEndian)
  from fits pos have le: "1 + N \<le> length data" by linarith
  have consumed: "length (drop (1 + N) data) + (1 + N) = length data"
    using le by simp
  have s: "bigEndian ?bs < 2 ^ 63 \<longrightarrow> sint ?len = bigEndian ?bs"
    unfolding len using bigEndian_bound [of ?bs] by (simp add: sint_of_int_small)
  have s7: "N \<le> 7 \<longrightarrow> sint ?len = bigEndian ?bs"
  proof
    assume "N \<le> 7"
    then have "length ?bs \<le> 7" by simp
    then have "(256 :: int) ^ length ?bs \<le> 256 ^ 7"
      by (rule power_increasing) simp
    with bigEndian_bound [of ?bs] have "bigEndian ?bs < 256 ^ 7" by linarith
    also have "(256 :: int) ^ 7 < 2 ^ 63" by simp
    finally have "bigEndian ?bs < 2 ^ 63" .
    with s show "sint ?len = bigEndian ?bs" by blast
  qed
  have z: "N = 0 \<longrightarrow> ?len = 0" by simp
  from dl consumed s s7 z
  show "\<exists>len. decodeLength data = Inr (len, drop (1 + N) data) \<and>
              length (drop (1 + N) data) + (1 + N) = length data \<and>
              (bigEndian ?bs < 2 ^ 63 \<longrightarrow> sint len = bigEndian ?bs) \<and>
              (N \<le> 7 \<longrightarrow> sint len = bigEndian ?bs) \<and>
              (N = 0 \<longrightarrow> len = 0)"
    by blast
next
  assume "data ! 0 AND 0x80 \<noteq> 0 \<and> length data - 1 < N"
  then have long: "data ! 0 AND 0x80 \<noteq> 0" and over: "length data - 1 < N"
    by simp_all
  from long N have N': "unat (data ! 0 XOR 0x80) = N"
    by (simp add: xor_high_bit)
  from ne have pos: "0 < length data" by simp
  from over pos have cond: "int (length data) - 1 < int N" by linarith
  show "\<exists>msg. decodeLength data = Inl (Failure msg)"
    unfolding decodeLength_def Let_def N' using ne long cond by simp
qed

theorem decodeLength_value_witness:
  "decodeLength [0x05, 0xAA] = Inr (5, [0xAA]) \<and>
   (\<exists>len. decodeLength [0x82, 0x01, 0x00, 0xAA] = Inr (len, [0xAA]) \<and> sint len = 256) \<and>
   (\<exists>msg. decodeLength [0x82, 0x01] = Inl (Failure msg))"
proof -
  have a: "decodeLength [0x05, 0xAA] = Inr (5, [0xAA])"
    using decodeLength_value [of "[0x05, 0xAA]" 5] by simp
  have "unat ((0x82 :: byte) AND 0x7F) = 2" by simp
  then have b: "\<exists>len. decodeLength [0x82, 0x01, 0x00, 0xAA] = Inr (len, [0xAA]) \<and> sint len = 256"
    using decodeLength_value [of "[0x82, 0x01, 0x00, 0xAA]" 2] by (auto simp: bigEndian_def)
  have c: "\<exists>msg. decodeLength [0x82, 0x01] = Inl (Failure msg)"
    using decodeLength_value [of "[0x82, 0x01]" 2] by simp
  from a b c show ?thesis by blast
qed

section \<open>Remaining buffer\<close>

text \<open>
  C6: whenever \<^verbatim>\<open>parseElement\<close> succeeds, the remaining buffer it returns is a suffix of
  its input and at least two bytes shorter, so the bytes consumed never exceed the input;
  and the loop of \<^verbatim>\<open>Parse\<close> terminates on every input: every call lies in the domain on
  which the recursion of \<^verbatim>\<open>Parse\<close> and \<^verbatim>\<open>parseElement\<close> is well-founded.
\<close>

theorem parseElement_consumes:
  "(parseElement E out data w = (w', Inr rest) \<longrightarrow>
      suffix rest data \<and> length rest + 2 \<le> length data) \<and>
   Parse_parseElement_dom (Inl (E, out, data, w))"
proof (intro conjI impI)
  assume "parseElement E out data w = (w', Inr rest)"
  from parseElement_rest_dom [OF Parse_parseElement_total this]
  obtain pre where pre: "data = pre @ rest" "2 \<le> length pre" by blast
  from pre(1) show "suffix rest data" by (simp add: suffix_def)
  from pre show "length rest + 2 \<le> length data" by simp
next
  show "Parse_parseElement_dom (Inl (E, out, data, w))"
    by (rule Parse_parseElement_total)
qed

theorem parseElement_consumes_witness:
  "suffix [0x30] [0x05, 0x00, 0x30 :: byte] \<and>
   length [0x30 :: byte] + 2 \<le> length [0x05, 0x00, 0x30 :: byte] \<and>
   Parse_parseElement_dom (Inl (stubs, 0, [0x05, 0x00, 0x30], []))"
proof -
  have h: "parseElement stubs 0 [0x05, 0x00, 0x30] [] =
      ([Text 0 ''UNIVERSAL '', Text 0 ''PRIMITIVE '', Text 0 (''NULL'' @ nl)], Inr [0x30])"
    by code_simp
  from parseElement_consumes [of stubs 0 "[0x05, 0x00, 0x30]" "[]" _ "[0x30]"] h
  show ?thesis by blast
qed

section \<open>OBJECT IDENTIFIER\<close>




section \<open>UTCTIME\<close>

text \<open>
  C8: for an element with the type byte of a UNIVERSAL PRIMITIVE UTCTIME (0x17) and a
  well-formed header, the content is always rendered as the hex dump labelled UTCTIME
  (followed by the call of the hint renderer), and after it the comment line
  \<^verbatim>\<open># 20YY-MM-DD HH:MM:SS GMT\<close> is printed exactly when the content has 13 bytes and ends in
  Z, with seconds \<^verbatim>\<open>:00\<close> when it has 11 bytes and ends in Z; in every other case nothing
  follows the hex dump.
\<close>

theorem utctime_element:
  assumes "2 \<le> length data" and "data ! 0 = typeUTCTime OR primitive"
    and "decodeLength (drop 1 data) = Inr (contentLen, rest0)"
    and "0 \<le> sint contentLen" and "sint contentLen \<le> int (length rest0)"
    and "content = take (nat (sint contentLen)) rest0"
  shows "parseElement E out data w =
           (w @ [Text out ''UNIVERSAL '', Text out ''PRIMITIVE '',
                 Text out ''UTCTIME '', Text out '':''] @
                map (\<lambda>v. Text out (hex02X v)) content @ [Text out nl, Hint out content] @
                (case utc_comment content of None \<Rightarrow> [] | Some line \<Rightarrow> [Text out line]),
            Inr (drop (nat (sint contentLen)) rest0))"
  unfolding utc_comment_source
  using assms(1-5)
  by (simp add: parseElement.simps [of E out data w] header_defs handleData_events
      assms(6) [symmetric] split: if_split)

theorem utctime_element_witness:
  "rendered (fst (parseElement stubs 0
     [0x17, 0x0D, 0x32, 0x35, 0x30, 0x31, 0x30, 0x32, 0x30, 0x33, 0x30, 0x34, 0x30, 0x35, 0x5A] [])) =
     ''UNIVERSAL PRIMITIVE UTCTIME :3235303130323033303430355A'' @ nl @
     ''# 2025-01-02 03:04:05 GMT'' @ nl \<and>
   rendered (fst (parseElement stubs 0
     [0x17, 0x0B, 0x32, 0x35, 0x30, 0x31, 0x30, 0x32, 0x30, 0x33, 0x30, 0x34, 0x5A] [])) =
     ''UNIVERSAL PRIMITIVE UTCTIME :32353031303230333034'' @ ''5A'' @ nl @
     ''# 2025-01-02 03:04:00 GMT'' @ nl \<and>
   rendered (fst (parseElement stubs 0 [0x17, 0x02, 0x32, 0x5A] [])) =
     ''UNIVERSAL PRIMITIVE UTCTIME :325A'' @ nl"
proof -
  have dl: "decodeLength (drop 1
      [0x17, 0x0D, 0x32, 0x35, 0x30, 0x31, 0x30, 0x32, 0x30, 0x33, 0x30, 0x34, 0x30, 0x35, 0x5A]) =
      Inr (13, [0x32, 0x35, 0x30, 0x31, 0x30, 0x32, 0x30, 0x33, 0x30, 0x34, 0x30, 0x35, 0x5A])"
    "decodeLength (drop 1
      [0x17, 0x0B, 0x32, 0x35, 0x30, 0x31, 0x30, 0x32, 0x30, 0x33, 0x30, 0x34, 0x5A]) =
      Inr (11, [0x32, 0x35, 0x30, 0x31, 0x30, 0x32, 0x30, 0x33, 0x30, 0x34, 0x5A])"
    "decodeLength (drop 1 [0x17, 0x02, 0x32, 0x5A]) = Inr (2, [0x32, 0x5A])"
    by code_simp+
  note ev = utc_comment_def hex02X_def bytes_string_def char_of_def bit_0
  have a: "rendered (fst (parseElement stubs 0
     [0x17, 0x0D, 0x32, 0x35, 0x30, 0x31, 0x30, 0x32, 0x30, 0x33, 0x30, 0x34, 0x30, 0x35, 0x5A] [])) =
     ''UNIVERSAL PRIMITIVE UTCTIME :3235303130323033303430355A'' @ nl @
     ''# 2025-01-02 03:04:05 GMT'' @ nl"
    using utctime_element [of
        "[0x17, 0x0D, 0x32, 0x35, 0x30, 0x31, 0x30, 0x32, 0x30, 0x33, 0x30, 0x34, 0x30, 0x35, 0x5A]"
        13 "[0x32, 0x35, 0x30, 0x31, 0x30, 0x32, 0x30, 0x33, 0x30, 0x34, 0x30, 0x35, 0x5A]"
        "[0x32, 0x35, 0x30, 0x31, 0x30, 0x32, 0x30, 0x33, 0x30, 0x34, 0x30, 0x35, 0x5A]"
        stubs 0 "[]"] dl(1)
    by (simp add: ev)
  have b: "rendered (fst (parseElement stubs 0
     [0x17, 0x0B, 0x32, 0x35, 0x30, 0x31, 0x30, 0x32, 0x30, 0x33, 0x30, 0x34, 0x5A] [])) =
     ''UNIVERSAL PRIMITIVE UTCTIME :32353031303230333034'' @ ''5A'' @ nl @
     ''# 2025-01-02 03:04:00 GMT'' @ nl"
    using utctime_element [of
        "[0x17, 0x0B, 0x32, 0x35, 0x30, 0x31, 0x30, 0x32, 0x30, 0x33, 0x30, 0x34, 0x5A]"
        11 "[0x32, 0x35, 0x30, 0x31, 0x30, 0x32, 0x30, 0x33, 0x30, 0x34, 0x5A]"
        "[0x32, 0x35, 0x30, 0x31, 0x30, 0x32, 0x30, 0x33, 0x30, 0x34, 0x5A]"
        stubs 0 "[]"] dl(2)
    by (simp add: ev)
  have c: "rendered (fst (parseElement stubs 0 [0x17, 0x02, 0x32, 0x5A] [])) =
     ''UNIVERSAL PRIMITIVE UTCTIME :325A'' @ nl"
    using utctime_element [of "[0x17, 0x02, 0x32, 0x5A]" 2 "[0x32, 0x5A]" "[0x32, 0x5A]"
        stubs 0 "[]"] dl(3)
    by (simp add: ev)
  from a b c show ?thesis by blast
qed

end
